theory Spec2Isabelle
  imports Main
begin

section \<open>The GBU database models (xbob/db/gbu/models.py)\<close>

text \<open>
  A shallow embedding of the constructors and methods of \<^verbatim>\<open>models.py\<close>.
  Python exceptions are the left injection of a sum type; an object under construction
  is a record whose attributes are \<open>None\<close> until \<^verbatim>\<open>__init__\<close> assigns them (the value
  an unset column attribute of a declarative class reads as), and \<^verbatim>\<open>__init__\<close> returns
  the object as it is when the method ends or raises.
\<close>

subsection \<open>Exceptions and values\<close>

datatype error =
    ValueError
  | TypeError
  | OverflowError
  | AssertionError
  | NameError string

text \<open>
  The values an element of \<^verbatim>\<open>eyes\<close> can be. A finite float \<open>PFloat m e\<close> is the number
  \<open>m * 2 ^ e\<close>: every finite double is of this shape.
\<close>

datatype pyval =
    PNone
  | PInt int
  | PStr string
  | is_PFloat: PFloat int int
  | PFloatInf
  | PFloatNaN

subsection \<open>The builtin \<^verbatim>\<open>int\<close>\<close>

text \<open>
  \<^verbatim>\<open>int(s)\<close> on a byte string, base 10, as the interpreter of the module's time reads it:
  leading whitespace, an optional sign, a non-empty run of decimal digits accumulated
  from the left, trailing whitespace, and then the end of the string; anything else is a
  \<^verbatim>\<open>ValueError\<close>.
\<close>

definition isspace :: "char \<Rightarrow> bool" where
  "isspace c = (c \<in> set [CHR '' '', CHR 0x09, CHR 0x0A, CHR 0x0B, CHR 0x0C, CHR 0x0D])"

definition isdigit :: "char \<Rightarrow> bool" where
  "isdigit c = (c \<in> set ''0123456789'')"

definition digit_value :: "char \<Rightarrow> int" where
  "digit_value c = int (of_char c) - 48"

definition digits_to_int :: "string \<Rightarrow> int" where
  "digits_to_int ds = foldl (\<lambda>acc c. acc * 10 + digit_value c) 0 ds"

definition py_int_str :: "string \<Rightarrow> error + int" where
  "py_int_str s =
     (let t = dropWhile isspace s;
          neg = (t \<noteq> [] \<and> hd t = CHR ''-'');
          u = (if t \<noteq> [] \<and> (hd t = CHR ''-'' \<or> hd t = CHR ''+'') then tl t else t);
          ds = takeWhile isdigit u;
          rest = dropWhile isspace (dropWhile isdigit u)
      in if ds = [] \<or> rest \<noteq> [] then Inl ValueError
         else Inr (if neg then - digits_to_int ds else digits_to_int ds))"

text \<open>
  \<^verbatim>\<open>int(x)\<close> on a value: an integer is returned as it is, a string is parsed, a finite
  float is truncated towards zero, an infinity is an \<^verbatim>\<open>OverflowError\<close>, a NaN a
  \<^verbatim>\<open>ValueError\<close> and \<^verbatim>\<open>None\<close> a \<^verbatim>\<open>TypeError\<close>.
\<close>

definition float_trunc :: "int \<Rightarrow> int \<Rightarrow> int" where
  "float_trunc m e =
     (if 0 \<le> e then m * 2 ^ nat e
      else if 0 \<le> m then m div 2 ^ nat (- e)
      else - ((- m) div 2 ^ nat (- e)))"

fun py_int :: "pyval \<Rightarrow> error + int" where
  "py_int PNone = Inl TypeError"
| "py_int (PInt i) = Inr i"
| "py_int (PStr s) = py_int_str s"
| "py_int (PFloat m e) = Inr (float_trunc m e)"
| "py_int PFloatInf = Inl OverflowError"
| "py_int PFloatNaN = Inl ValueError"

subsection \<open>\<^verbatim>\<open>client_id_from_signature\<close> and \<^verbatim>\<open>Client\<close>\<close>

text \<open>\<^verbatim>\<open>return int(signature[4:])\<close>: the slice of a short string is the empty string.\<close>

definition client_id_from_signature :: "string \<Rightarrow> error + int" where
  "client_id_from_signature signature = py_int_str (drop 4 signature)"

record Client =
  Client_id :: "int option"
  Client_signature :: "string option"

definition Client_blank :: Client where
  "Client_blank = \<lparr>Client_id = None, Client_signature = None\<rparr>"

definition Client_init :: "Client \<Rightarrow> string \<Rightarrow> (error + unit) \<times> Client" where
  "Client_init self signature =
     (let self1 = self\<lparr>Client_signature := Some signature\<rparr>
      in case client_id_from_signature signature of
           Inl e \<Rightarrow> (Inl e, self1)
         | Inr i \<Rightarrow> (Inr (), self1\<lparr>Client_id := Some i\<rparr>))"

text \<open>\<^verbatim>\<open>Client(signature)\<close>: the object is returned only when \<^verbatim>\<open>__init__\<close> does not raise.\<close>

definition Client_new :: "string \<Rightarrow> error + Client" where
  "Client_new signature =
     (case Client_init Client_blank signature of
        (Inl e, _) \<Rightarrow> Inl e
      | (Inr _, obj) \<Rightarrow> Inr obj)"

subsection \<open>\<^verbatim>\<open>Annotation\<close>\<close>

record Annotation =
  Annotation_id :: "int option"
  Annotation_file_id :: "string option"
  le_x :: "int option"
  le_y :: "int option"
  re_x :: "int option"
  re_y :: "int option"

definition Annotation_blank :: Annotation where
  "Annotation_blank =
     \<lparr>Annotation_id = None, Annotation_file_id = None,
      le_x = None, le_y = None, re_x = None, re_y = None\<rparr>"

text \<open>
  \<^verbatim>\<open>__init__(self, presentation, eyes)\<close>, statement by statement. The \<^verbatim>\<open>assert\<close> is
  executed (the interpreter runs without \<^verbatim>\<open>-O\<close>); the indices 0 to 3 are read only
  after it, so they are in range.
\<close>

definition Annotation_init ::
  "Annotation \<Rightarrow> string \<Rightarrow> pyval list \<Rightarrow> (error + unit) \<times> Annotation" where
  "Annotation_init self presentation eyes =
     (let self0 = self\<lparr>Annotation_file_id := Some presentation\<rparr>
      in if length eyes \<noteq> 4 then (Inl AssertionError, self0)
         else case py_int (eyes ! 0) of
           Inl e \<Rightarrow> (Inl e, self0)
         | Inr a \<Rightarrow>
             let self1 = self0\<lparr>re_x := Some a\<rparr>
             in case py_int (eyes ! 1) of
                  Inl e \<Rightarrow> (Inl e, self1)
                | Inr b \<Rightarrow>
                    let self2 = self1\<lparr>re_y := Some b\<rparr>
                    in case py_int (eyes ! 2) of
                         Inl e \<Rightarrow> (Inl e, self2)
                       | Inr c \<Rightarrow>
                           let self3 = self2\<lparr>le_x := Some c\<rparr>
                           in case py_int (eyes ! 3) of
                                Inl e \<Rightarrow> (Inl e, self3)
                              | Inr d \<Rightarrow> (Inr (), self3\<lparr>le_y := Some d\<rparr>))"

definition Annotation_new :: "string \<Rightarrow> pyval list \<Rightarrow> error + Annotation" where
  "Annotation_new presentation eyes =
     (case Annotation_init Annotation_blank presentation eyes of
        (Inl e, _) \<Rightarrow> Inl e
      | (Inr _, obj) \<Rightarrow> Inr obj)"

subsection \<open>\<^verbatim>\<open>File\<close>\<close>

text \<open>
  The attributes of a \<^verbatim>\<open>File\<close> object. The first four are the columns the class
  declares for the table \<^verbatim>\<open>file\<close>; \<open>File_signature\<close> is the plain attribute that
  \<^verbatim>\<open>__init__\<close> sets in its last statement, for which the class declares no column.
\<close>

record File =
  File_id :: "int option"
  File_client_id :: "int option"
  File_path :: "string option"
  File_presentation :: "string option"
  File_signature :: "string option"

definition File_blank :: File where
  "File_blank =
     \<lparr>File_id = None, File_client_id = None, File_path = None,
      File_presentation = None, File_signature = None\<rparr>"

definition File_init :: "File \<Rightarrow> string \<Rightarrow> string \<Rightarrow> string \<Rightarrow> (error + unit) \<times> File" where
  "File_init self presentation signature path =
     (let self1 = self\<lparr>File_presentation := Some presentation\<rparr>
      in case client_id_from_signature signature of
           Inl e \<Rightarrow> (Inl e, self1)
         | Inr i \<Rightarrow>
             (Inr (), self1\<lparr>File_client_id := Some i, File_path := Some path,
                             File_signature := Some signature\<rparr>))"

definition File_new :: "string \<Rightarrow> string \<Rightarrow> string \<Rightarrow> error + File" where
  "File_new presentation signature path =
     (case File_init File_blank presentation signature path of
        (Inl e, _) \<Rightarrow> Inl e
      | (Inr _, obj) \<Rightarrow> Inr obj)"

text \<open>The row of the table \<^verbatim>\<open>file\<close> that a \<^verbatim>\<open>File\<close> object maps to: its declared columns.\<close>

record File_row =
  row_id :: "int option"
  row_client_id :: "int option"
  row_path :: "string option"
  row_presentation :: "string option"

definition File_columns :: "File \<Rightarrow> File_row" where
  "File_columns f =
     \<lparr>row_id = File_id f, row_client_id = File_client_id f,
      row_path = File_path f, row_presentation = File_presentation f\<rparr>"

subsection \<open>Paths\<close>

text \<open>
  \<^verbatim>\<open>os.path.join\<close> with two arguments and \<^verbatim>\<open>os.path.dirname\<close>, as the POSIX flavour of
  the standard library defines them: a second component that starts with the separator
  replaces the first; otherwise one separator is inserted unless the first component is
  empty or already ends with one.
\<close>

definition startswith_sep :: "string \<Rightarrow> bool" where
  "startswith_sep b = (case b of [] \<Rightarrow> False | c # _ \<Rightarrow> c = CHR ''/'')"

definition endswith_sep :: "string \<Rightarrow> bool" where
  "endswith_sep a = (a \<noteq> [] \<and> last a = CHR ''/'')"

definition os_path_join :: "string \<Rightarrow> string \<Rightarrow> string" where
  "os_path_join a b =
     (if startswith_sep b then b
      else if a = [] \<or> endswith_sep a then a @ b
      else a @ ''/'' @ b)"

definition os_path_dirname :: "string \<Rightarrow> string" where
  "os_path_dirname p =
     (let head = rev (dropWhile (\<lambda>c. c \<noteq> CHR ''/'') (rev p))
      in if head \<noteq> [] \<and> head \<noteq> replicate (length head) (CHR ''/'')
         then rev (dropWhile (\<lambda>c. c = CHR ''/'') (rev head))
         else head)"

text \<open>
  \<^verbatim>\<open>if not x: x = ''\<close> for an optional string argument: \<^verbatim>\<open>None\<close> and the empty string
  are both false.
\<close>

definition or_empty :: "string option \<Rightarrow> string" where
  "or_empty x = (case x of None \<Rightarrow> [] | Some s \<Rightarrow> s)"

text \<open>
  \<^verbatim>\<open>make_path(self, directory=None, extension=None)\<close>. Concatenating to a path that was
  never set (\<^verbatim>\<open>None + ''\<close>) is a \<^verbatim>\<open>TypeError\<close>.
\<close>

definition File_make_path :: "File \<Rightarrow> string option \<Rightarrow> string option \<Rightarrow> error + string" where
  "File_make_path self directory extension =
     (let directory1 = or_empty directory;
          extension1 = or_empty extension
      in case File_path self of
           None \<Rightarrow> Inl TypeError
         | Some p \<Rightarrow> Inr (os_path_join directory1 (p @ extension1)))"

subsection \<open>\<^verbatim>\<open>File.save\<close>\<close>

text \<open>
  The names bound in the module's namespace, in the order the module binds them:
  \<^verbatim>\<open>import os\<close>, the names listed by the three \<^verbatim>\<open>from ... import\<close> statements and by
  \<^verbatim>\<open>from bob.db.sqlalchemy_migration import Enum, relationship\<close> (which binds \<^verbatim>\<open>Enum\<close>
  and \<^verbatim>\<open>relationship\<close>, not \<^verbatim>\<open>bob\<close>), and the module's own definitions.
\<close>

definition module_globals :: "string list" where
  "module_globals =
     [''os'',
      ''Table'', ''Column'', ''Integer'', ''String'', ''ForeignKey'', ''or_'', ''and_'',
      ''Enum'', ''relationship'',
      ''backref'',
      ''declarative_base'',
      ''Base'', ''client_id_from_signature'', ''Client'', ''Annotation'', ''File'',
      ''subworld_file_association'', ''Subworld'',
      ''protocol_file_association'', ''Protocol'']"

text \<open>Reading a global name inside a function body: unbound names raise \<^verbatim>\<open>NameError\<close>.\<close>

definition load_global :: "string \<Rightarrow> error + unit" where
  "load_global name =
     (if name \<in> set module_globals then Inr () else Inl (NameError name))"

text \<open>
  \<^verbatim>\<open>save(self, data, directory=None, extension='.hdf5')\<close>. The two collaborators
  \<^verbatim>\<open>bob.utils.makedirs_safe\<close> and \<^verbatim>\<open>bob.io.save\<close> are not part of the module: they are
  parameters acting on a store \<open>'fs\<close>. In each call statement the callee expression, which
  starts by reading the global \<^verbatim>\<open>bob\<close>, is evaluated before the arguments.
\<close>

definition File_save ::
  "(string \<Rightarrow> 'fs \<Rightarrow> error + 'fs) \<Rightarrow> ('d \<Rightarrow> string \<Rightarrow> 'fs \<Rightarrow> error + 'fs) \<Rightarrow>
   File \<Rightarrow> 'd \<Rightarrow> string option \<Rightarrow> string option \<Rightarrow> 'fs \<Rightarrow> (error + unit) \<times> 'fs" where
  "File_save makedirs_safe io_save self data directory extension fs =
     (case File_make_path self directory extension of
        Inl e \<Rightarrow> (Inl e, fs)
      | Inr path \<Rightarrow>
          (case load_global ''bob'' of
             Inl e \<Rightarrow> (Inl e, fs)
           | Inr _ \<Rightarrow>
               (case makedirs_safe (os_path_dirname path) fs of
                  Inl e \<Rightarrow> (Inl e, fs)
                | Inr fs1 \<Rightarrow>
                    (case load_global ''bob'' of
                       Inl e \<Rightarrow> (Inl e, fs1)
                     | Inr _ \<Rightarrow>
                         (case io_save data path fs1 of
                            Inl e \<Rightarrow> (Inl e, fs1)
                          | Inr fs2 \<Rightarrow> (Inr (), fs2))))))"

text \<open>The call \<^verbatim>\<open>f.save(data, directory)\<close> that leaves the extension at its default.\<close>

definition File_save_default ::
  "(string \<Rightarrow> 'fs \<Rightarrow> error + 'fs) \<Rightarrow> ('d \<Rightarrow> string \<Rightarrow> 'fs \<Rightarrow> error + 'fs) \<Rightarrow>
   File \<Rightarrow> 'd \<Rightarrow> string option \<Rightarrow> 'fs \<Rightarrow> (error + unit) \<times> 'fs" where
  "File_save_default makedirs_safe io_save self data directory fs =
     File_save makedirs_safe io_save self data directory (Some ''.hdf5'') fs"

subsection \<open>Integers and integer literals\<close>

text \<open>
  The elements that are "an integer or a string parseable as an integer": an \<open>int\<close>, or
  a string that \<^verbatim>\<open>int\<close> accepts.
\<close>

fun integer_or_integer_string :: "pyval \<Rightarrow> bool" where
  "integer_or_integer_string (PInt i) = True"
| "integer_or_integer_string (PStr s) = (case py_int_str s of Inl e \<Rightarrow> False | Inr v \<Rightarrow> True)"
| "integer_or_integer_string x = False"

text \<open>
  "Truncated towards zero": \<open>v\<close> is the integer part of the number \<open>m * 2 ^ e\<close>. For a
  negative exponent \<open>e = - k\<close> this says that \<open>v\<close> does not have the opposite sign of
  \<open>m\<close> and that \<open>\<bar>v\<bar> \<le> \<bar>m\<bar> / 2 ^ k < \<bar>v\<bar> + 1\<close>, written without division.
\<close>

definition truncated_towards_zero :: "int \<Rightarrow> int \<Rightarrow> int \<Rightarrow> bool" where
  "truncated_towards_zero m e v =
     (if 0 \<le> e then v = m * 2 ^ nat e
      else 0 \<le> v * m \<and>
           \<bar>v\<bar> * 2 ^ nat (- e) \<le> \<bar>m\<bar> \<and>
           \<bar>m\<bar> < (\<bar>v\<bar> + 1) * 2 ^ nat (- e))"

subsection \<open>The decimal value of a digit string\<close>

text \<open>
  The integer a digit string denotes, in positional notation: the first digit weighs
  ten to the number of digits after it. This is the reading of "the integer value of
  the digits" that the results about \<open>client_id_from_signature\<close> are stated against.
\<close>

fun decimal_value :: "string \<Rightarrow> int" where
  "decimal_value [] = 0"
| "decimal_value (c # cs) = digit_value c * 10 ^ length cs + decimal_value cs"

section \<open>Reading integers\<close>

lemma foldl_digits:
  "foldl (\<lambda>acc c. acc * 10 + digit_value c) a ds = a * 10 ^ length ds + decimal_value ds"
  by (induction ds arbitrary: a) (simp_all add: algebra_simps)

lemma digits_to_int_decimal_value: "digits_to_int ds = decimal_value ds"
  by (simp add: digits_to_int_def foldl_digits)

lemma digit_not_space: "isdigit c \<Longrightarrow> \<not> isspace c"
  by (auto simp: isdigit_def isspace_def)

lemma digit_not_sign: "isdigit c \<Longrightarrow> c \<noteq> CHR ''-'' \<and> c \<noteq> CHR ''+''"
  by (auto simp: isdigit_def)

lemma sign_not_space: "\<not> isspace CHR ''-''" "\<not> isspace CHR ''+''"
  by (simp_all add: isspace_def)

lemma space_not_digit: "isspace c \<Longrightarrow> \<not> isdigit c"
  by (auto simp: isdigit_def isspace_def)

lemma takeWhile_digit_spaces: "\<forall>c\<in>set ws. isspace c \<Longrightarrow> takeWhile isdigit ws = []"
  by (cases ws) (simp_all add: space_not_digit)

lemma dropWhile_digit_spaces: "\<forall>c\<in>set ws. isspace c \<Longrightarrow> dropWhile isdigit ws = ws"
  by (cases ws) (simp_all add: space_not_digit)

lemma takeWhile_digits_spaces:
  "\<forall>c\<in>set ds. isdigit c \<Longrightarrow> \<forall>c\<in>set ws. isspace c \<Longrightarrow> takeWhile isdigit (ds @ ws) = ds"
  by (simp add: takeWhile_append2 takeWhile_digit_spaces)

lemma dropWhile_digits_spaces:
  "\<forall>c\<in>set ds. isdigit c \<Longrightarrow> \<forall>c\<in>set ws. isspace c \<Longrightarrow>
     dropWhile isspace (dropWhile isdigit (ds @ ws)) = []"
  by (simp add: dropWhile_append2 dropWhile_digit_spaces)

lemma py_int_str_unsigned:
  assumes "ds \<noteq> []" "\<forall>c\<in>set ds. isdigit c" "\<forall>c\<in>set ws. isspace c"
  shows "py_int_str (ds @ ws) = Inr (decimal_value ds)"
proof -
  obtain c cs where ds: "ds = c # cs" using assms(1) by (cases ds) auto
  have c: "isdigit c" using assms(2) ds by simp
  have t: "dropWhile isspace (ds @ ws) = ds @ ws"
    using c ds by (simp add: digit_not_space)
  have h: "hd (ds @ ws) = c" "ds @ ws \<noteq> []" using ds by simp_all
  show ?thesis
    unfolding py_int_str_def t Let_def h
    using digit_not_sign[OF c] assms(1)
    by (simp add: takeWhile_digits_spaces[OF assms(2,3)] dropWhile_digits_spaces[OF assms(2,3)]
          digits_to_int_decimal_value)
qed

lemma dropWhile_space_prefix:
  "\<forall>c\<in>set ws. isspace c \<Longrightarrow> dropWhile isspace (ws @ r) = dropWhile isspace r"
  by (simp add: dropWhile_append2)

lemma py_int_str_minus:
  "py_int_str (CHR ''-'' # u) =
     (if takeWhile isdigit u = [] \<or> dropWhile isspace (dropWhile isdigit u) \<noteq> []
      then Inl ValueError else Inr (- digits_to_int (takeWhile isdigit u)))"
  by (simp add: py_int_str_def Let_def sign_not_space)

lemma py_int_str_plus:
  "py_int_str (CHR ''+'' # u) =
     (if takeWhile isdigit u = [] \<or> dropWhile isspace (dropWhile isdigit u) \<noteq> []
      then Inl ValueError else Inr (digits_to_int (takeWhile isdigit u)))"
  by (simp add: py_int_str_def Let_def sign_not_space)

lemma py_int_str_literal:
  assumes ds: "ds \<noteq> []" "\<forall>c\<in>set ds. isdigit c"
    and ws: "\<forall>c\<in>set ws1. isspace c" "\<forall>c\<in>set ws2. isspace c"
    and sg: "sg = [] \<or> sg = ''+'' \<or> sg = ''-''"
  shows "py_int_str (ws1 @ sg @ ds @ ws2) =
           Inr (if sg = ''-'' then - decimal_value ds else decimal_value ds)"
proof -
  have strip: "py_int_str (ws1 @ r) = py_int_str r" for r
    by (simp add: py_int_str_def dropWhile_space_prefix[OF ws(1)])
  have plain: "py_int_str (ds @ ws2) = Inr (decimal_value ds)"
    by (rule py_int_str_unsigned[OF ds ws(2)])
  obtain c cs where dsc: "ds = c # cs" using ds(1) by (cases ds) auto
  have c: "isdigit c" using ds(2) dsc by simp
  have tk: "takeWhile isdigit (ds @ ws2) = ds"
    by (rule takeWhile_digits_spaces[OF ds(2) ws(2)])
  have dr: "dropWhile isspace (dropWhile isdigit (ds @ ws2)) = []"
    by (rule dropWhile_digits_spaces[OF ds(2) ws(2)])
  have minus: "py_int_str (CHR ''-'' # ds @ ws2) = Inr (- decimal_value ds)"
    using ds(1) by (simp add: py_int_str_minus tk dr digits_to_int_decimal_value)
  have plus: "py_int_str (CHR ''+'' # ds @ ws2) = Inr (decimal_value ds)"
    using ds(1) by (simp add: py_int_str_plus tk dr digits_to_int_decimal_value)
  from sg consider "sg = []" | "sg = ''+''" | "sg = ''-''" by blast
  then show ?thesis
  proof cases
    case 1 then show ?thesis using strip[of "ds @ ws2"] plain by simp
  next
    case 2 then show ?thesis using strip[of "CHR ''+'' # ds @ ws2"] plus by simp
  next
    case 3 then show ?thesis using strip[of "CHR ''-'' # ds @ ws2"] minus by simp
  qed
qed

lemma py_int_str_empty: "py_int_str [] = Inl ValueError"
  by (simp add: py_int_str_def)

lemma py_int_str_error: "py_int_str s = Inl e \<Longrightarrow> e = ValueError"
  by (auto simp only: py_int_str_def Let_def sum.inject sum.distinct split: if_split_asm)

lemma py_int_error: "py_int x = Inl e \<Longrightarrow> e \<in> {ValueError, TypeError, OverflowError}"
  by (cases x) (auto dest: py_int_str_error)

section \<open>Signatures and client ids\<close>

text \<open>
  Claim C1. For a signature made of a four-character tag followed by a non-empty string
  of decimal digits, \<open>client_id_from_signature\<close> returns the decimal value of the digits,
  and \<open>Client\<close> built from it has that id and the signature unchanged. Every signature
  with the same characters from offset 4 gives the same id, whatever stands before.
\<close>

theorem client_id_from_signature_digits:
  assumes "length tag = 4" and "d \<noteq> []" and "\<forall>c\<in>set d. isdigit c"
  shows "client_id_from_signature (tag @ d) = Inr (decimal_value d) \<and>
         Client_new (tag @ d) =
           Inr \<lparr>Client_id = Some (decimal_value d), Client_signature = Some (tag @ d)\<rparr> \<and>
         (\<forall>s'. drop 4 s' = d \<longrightarrow> client_id_from_signature s' = Inr (decimal_value d)) \<and>
         (\<forall>s1 s2. drop 4 s1 = drop 4 s2 \<longrightarrow>
            client_id_from_signature s1 = client_id_from_signature s2)"
proof -
  have p: "py_int_str d = Inr (decimal_value d)"
    using py_int_str_unsigned[OF assms(2,3), of "[]"] by simp
  have a: "client_id_from_signature (tag @ d) = Inr (decimal_value d)"
    using assms(1) p by (simp add: client_id_from_signature_def)
  have b: "Client_new (tag @ d) =
      Inr \<lparr>Client_id = Some (decimal_value d), Client_signature = Some (tag @ d)\<rparr>"
    by (simp add: Client_new_def Client_init_def Client_blank_def a)
  have c: "\<forall>s'. drop 4 s' = d \<longrightarrow> client_id_from_signature s' = Inr (decimal_value d)"
    using p by (simp add: client_id_from_signature_def)
  have e: "\<forall>s1 s2. drop 4 s1 = drop 4 s2 \<longrightarrow>
      client_id_from_signature s1 = client_id_from_signature s2"
    by (simp add: client_id_from_signature_def)
  from a b c e show ?thesis by blast
qed

theorem client_id_from_signature_digits_witness:
  "client_id_from_signature ''nd1S0042'' = Inr 42 \<and>
   Client_new ''nd1S0042'' = Inr \<lparr>Client_id = Some 42, Client_signature = Some ''nd1S0042''\<rparr> \<and>
   client_id_from_signature ''XXXX0042'' = Inr 42"
proof -
  have h: "length ''nd1S'' = 4" "''0042'' \<noteq> []" "\<forall>c\<in>set ''0042''. isdigit c"
    by (simp_all add: isdigit_def)
  have v: "decimal_value ''0042'' = 42" by (simp add: digit_value_def)
  show ?thesis using client_id_from_signature_digits[OF h] v by simp
qed

text \<open>
  Claim C5. For a signature shorter than five characters the derivation raises
  \<^verbatim>\<open>ValueError\<close>, and so do the constructors of \<open>Client\<close> and \<open>File\<close>: no object is
  returned.
\<close>

theorem short_signature_fails:
  assumes "length s < 5"
  shows "client_id_from_signature s = Inl ValueError \<and>
         Client_new s = Inl ValueError \<and>
         File_new presentation s path = Inl ValueError"
proof -
  have a: "client_id_from_signature s = Inl ValueError"
    using assms by (simp add: client_id_from_signature_def py_int_str_empty)
  show ?thesis
    by (simp add: a Client_new_def Client_init_def File_new_def File_init_def)
qed

theorem short_signature_fails_witness:
  "client_id_from_signature ''nd1S'' = Inl ValueError \<and>
   Client_new ''nd1S'' = Inl ValueError \<and>
   File_new ''nd2S00001'' ''nd1S'' ''a/b'' = Inl ValueError"
  using short_signature_fails[of "''nd1S''" "''nd2S00001''" "''a/b''"] by simp

text \<open>
  Claim C2. The constructor of \<open>File\<close> sets \<open>client_id\<close> to what
  \<open>client_id_from_signature\<close> returns for the signature, and raises what it raises; the
  signature \<^verbatim>\<open>nd1S0001\<close> gives 1 and \<^verbatim>\<open>nd1S1234\<close> gives 1234.
\<close>

theorem File_client_id_derived:
  "map_sum id File_client_id (File_new presentation signature path) =
     map_sum id Some (client_id_from_signature signature) \<and>
   map_sum id File_client_id (File_new presentation ''nd1S0001'' path) = Inr (Some 1) \<and>
   map_sum id File_client_id (File_new presentation ''nd1S1234'' path) = Inr (Some 1234)"
proof -
  have g: "map_sum id File_client_id (File_new p s q) =
      map_sum id Some (client_id_from_signature s)" for p s q
    by (cases "client_id_from_signature s")
       (simp_all add: File_new_def File_init_def File_blank_def)
  have d: "\<forall>c\<in>set ''0001''. isdigit c" "\<forall>c\<in>set ''1234''. isdigit c"
    by (simp_all add: isdigit_def)
  have "client_id_from_signature ''nd1S0001'' = Inr 1"
    using py_int_str_unsigned[of "''0001''" "[]"] d
    by (simp add: client_id_from_signature_def digit_value_def)
  moreover have "client_id_from_signature ''nd1S1234'' = Inr 1234"
    using py_int_str_unsigned[of "''1234''" "[]"] d
    by (simp add: client_id_from_signature_def digit_value_def)
  ultimately show ?thesis using g by simp
qed

theorem File_client_id_derived_witness:
  "map_sum id File_client_id (File_new ''nd2S00001'' ''nd1S0001'' ''a/b'') = Inr (Some 1)"
  using File_client_id_derived[of "''nd2S00001''" "''nd1S0001''" "''a/b''"] by blast

text \<open>
  Claim C8. When the characters from offset 4 are whitespace, an optional sign, a
  non-empty digit string and whitespace, the derivation succeeds and returns the signed
  value; so there are suffixes that are not digit strings and are accepted, such as
  \<^verbatim>\<open>-12\<close> with the result \<open>-12\<close>.
\<close>

theorem signed_or_padded_suffix_accepted:
  assumes "drop 4 s = ws1 @ sg @ ds @ ws2"
    and "\<forall>c\<in>set ws1. isspace c" and "\<forall>c\<in>set ws2. isspace c"
    and "sg = [] \<or> sg = ''+'' \<or> sg = ''-''"
    and "ds \<noteq> []" and "\<forall>c\<in>set ds. isdigit c"
  shows "client_id_from_signature s =
           Inr (if sg = ''-'' then - decimal_value ds else decimal_value ds) \<and>
         (\<exists>s'. (\<exists>c\<in>set (drop 4 s'). \<not> isdigit c) \<and> client_id_from_signature s' = Inr (- 12))"
proof -
  have a: "client_id_from_signature s =
      Inr (if sg = ''-'' then - decimal_value ds else decimal_value ds)"
    unfolding client_id_from_signature_def assms(1)
    by (rule py_int_str_literal[OF assms(5,6,2,3,4)])
  have d: "\<forall>c\<in>set ''12''. isdigit c" by (simp add: isdigit_def)
  have "py_int_str ([] @ ''-'' @ ''12'' @ []) = Inr (- decimal_value ''12'')"
    using py_int_str_literal[of "''12''" "[]" "[]" "''-''"] d by simp
  then have "client_id_from_signature ''nd1S-12'' = Inr (- 12)"
    by (simp add: client_id_from_signature_def digit_value_def)
  moreover have "\<exists>c\<in>set (drop 4 ''nd1S-12''). \<not> isdigit c"
    by (simp add: isdigit_def)
  ultimately show ?thesis using a by blast
qed

theorem signed_or_padded_suffix_accepted_witness:
  "client_id_from_signature ''nd1S -12 '' = Inr (- 12)"
proof -
  have h: "drop 4 ''nd1S -12 '' = '' '' @ ''-'' @ ''12'' @ '' ''"
    "\<forall>c\<in>set '' ''. isspace c" "\<forall>c\<in>set '' ''. isspace c"
    "''-'' = [] \<or> ''-'' = ''+'' \<or> ''-'' = ''-''" "''12'' \<noteq> []" "\<forall>c\<in>set ''12''. isdigit c"
    by (simp_all add: isspace_def isdigit_def)
  have v: "decimal_value ''12'' = 12" by (simp add: digit_value_def)
  show ?thesis using signed_or_padded_suffix_accepted[OF h] v by simp
qed

section \<open>Constructing a file\<close>

lemma File_new_eq:
  "File_new p s path =
     (case client_id_from_signature s of
        Inl e \<Rightarrow> Inl e
      | Inr i \<Rightarrow> Inr \<lparr>File_id = None, File_client_id = Some i, File_path = Some path,
                        File_presentation = Some p, File_signature = Some s\<rparr>)"
  by (simp add: File_new_def File_init_def File_blank_def split: sum.splits)

lemma cid_0001: "client_id_from_signature ''nd1S0001'' = Inr 1"
proof -
  have d: "\<forall>c\<in>set ''0001''. isdigit c" by (simp add: isdigit_def)
  show ?thesis
    using py_int_str_unsigned[of "''0001''" "[]"] d
    by (simp add: client_id_from_signature_def digit_value_def)
qed


text \<open>
  Claim C6 as stated fails: the \<open>File\<close> that the constructor returns carries the
  signature it was given, in the attribute its last statement sets.
\<close>

theorem File_keeps_signature_counterexample:
  "map_sum id File_signature (File_new ''nd2S00001'' ''nd1S0001'' ''a/b'') =
     Inr (Some ''nd1S0001'')"
  by (simp add: File_new_eq cid_0001)

text \<open>
  Claim C6, as the code has it. The constructor sets \<open>presentation\<close>, \<open>client_id\<close>,
  \<open>path\<close> and the attribute \<open>signature\<close> on the object. The declared columns of the row
  hold \<open>presentation\<close>, \<open>client_id\<close> and \<open>path\<close> (and no \<open>id\<close> yet): they are the
  same for every signature with the same derived id.
\<close>

theorem File_row_without_signature:
  assumes "client_id_from_signature s = Inr i"
  shows "(\<exists>f. File_new p s path = Inr f \<and> File_signature f = Some s \<and>
              File_columns f = \<lparr>row_id = None, row_client_id = Some i,
                                 row_path = Some path, row_presentation = Some p\<rparr>) \<and>
         (\<forall>s'. client_id_from_signature s' = Inr i \<longrightarrow>
              map_sum id File_columns (File_new p s' path) =
              map_sum id File_columns (File_new p s path))"
  using assms by (simp add: File_new_eq File_columns_def)

theorem File_row_without_signature_witness:
  "\<exists>f. File_new ''nd2S00001'' ''nd1S0001'' ''a/b'' = Inr f \<and>
       File_signature f = Some ''nd1S0001'' \<and>
       File_columns f = \<lparr>row_id = None, row_client_id = Some 1,
                          row_path = Some ''a/b'', row_presentation = Some ''nd2S00001''\<rparr>"
  using File_row_without_signature[OF cid_0001, of "''nd2S00001''" "''a/b''"] by blast


section \<open>Path composition\<close>

text \<open>
  Claim C3, as the code has it. For a stored path \<open>p\<close>, \<open>make_path\<close> returns the join of
  the directory (or the empty string) and \<open>p\<close> followed by the extension (or the empty
  string); without arguments it returns \<open>p\<close>; and when \<open>p\<close> does not begin with the
  separator, directory \<^verbatim>\<open>/a/b\<close> and extension \<^verbatim>\<open>.hdf5\<close> give \<^verbatim>\<open>/a/b/\<close>, then \<open>p\<close>, then
  \<^verbatim>\<open>.hdf5\<close>.
\<close>

theorem make_path_relative:
  assumes "File_path f = Some p"
  shows "File_make_path f directory extension =
           Inr (os_path_join (or_empty directory) (p @ or_empty extension)) \<and>
         File_make_path f None None = Inr p \<and>
         (\<not> startswith_sep p \<longrightarrow>
            File_make_path f (Some ''/a/b'') (Some ''.hdf5'') = Inr (''/a/b/'' @ p @ ''.hdf5''))"
proof -
  have a: "File_make_path f directory extension =
      Inr (os_path_join (or_empty directory) (p @ or_empty extension))"
    using assms by (simp add: File_make_path_def)
  have b: "File_make_path f None None = Inr p"
    using assms by (simp add: File_make_path_def or_empty_def os_path_join_def)
  have c: "File_make_path f (Some ''/a/b'') (Some ''.hdf5'') = Inr (''/a/b/'' @ p @ ''.hdf5'')"
    if "\<not> startswith_sep p"
  proof -
    have "\<not> startswith_sep (p @ ''.hdf5'')"
      using that by (cases p) (simp_all add: startswith_sep_def)
    then show ?thesis
      using assms by (simp add: File_make_path_def or_empty_def os_path_join_def endswith_sep_def)
  qed
  from a b c show ?thesis by blast
qed

theorem make_path_relative_witness:
  "File_make_path (File_blank\<lparr>File_path := Some ''x/y''\<rparr>) None None = Inr ''x/y'' \<and>
   File_make_path (File_blank\<lparr>File_path := Some ''x/y''\<rparr>) (Some ''/a/b'') (Some ''.hdf5'') =
     Inr ''/a/b/x/y.hdf5''"
proof -
  have h: "File_path (File_blank\<lparr>File_path := Some ''x/y''\<rparr>) = Some ''x/y''" by simp
  have n: "\<not> startswith_sep ''x/y''" by (simp add: startswith_sep_def)
  from make_path_relative[OF h, of None None] n
  have "File_make_path (File_blank\<lparr>File_path := Some ''x/y''\<rparr>) None None = Inr ''x/y''"
    and "File_make_path (File_blank\<lparr>File_path := Some ''x/y''\<rparr>) (Some ''/a/b'') (Some ''.hdf5'') =
           Inr (''/a/b/'' @ ''x/y'' @ ''.hdf5'')"
    by blast+
  then show ?thesis by simp
qed

text \<open>
  Claim C3 as stated fails for a stored path that begins with the separator: with the
  path \<^verbatim>\<open>/x\<close> the directory \<^verbatim>\<open>/a/b\<close> is dropped.
\<close>

theorem make_path_absolute_counterexample:
  "map_sum id (\<lambda>f. File_make_path f (Some ''/a/b'') (Some ''.hdf5''))
     (File_new ''nd2S00001'' ''nd1S0001'' ''/x'') = Inr (Inr ''/x.hdf5'') \<and>
   ''/x.hdf5'' \<noteq> ''/a/b/'' @ ''/x'' @ ''.hdf5''"
  by (simp add: File_new_eq cid_0001 File_make_path_def or_empty_def os_path_join_def
        startswith_sep_def)

text \<open>
  Claim C9. When the stored path begins with the separator, \<open>make_path\<close> returns the path
  followed by the extension, whatever the directory is.
\<close>

theorem make_path_absolute:
  assumes "File_path f = Some p" and "startswith_sep p"
  shows "File_make_path f directory extension = Inr (p @ or_empty extension)"
proof -
  have "startswith_sep (p @ or_empty extension)"
    using assms(2) by (cases p) (simp_all add: startswith_sep_def)
  then show ?thesis
    using assms(1) by (simp add: File_make_path_def os_path_join_def)
qed

theorem make_path_absolute_witness:
  "File_make_path (File_blank\<lparr>File_path := Some ''/data/x''\<rparr>) (Some ''/a/b'') (Some ''.jpg'') =
     Inr ''/data/x.jpg''"
proof -
  have h: "File_path (File_blank\<lparr>File_path := Some ''/data/x''\<rparr>) = Some ''/data/x''"
    "startswith_sep ''/data/x''"
    by (simp_all add: startswith_sep_def)
  show ?thesis
    using make_path_absolute[OF h, of "Some ''/a/b''" "Some ''.jpg''"] by (simp add: or_empty_def)
qed

section \<open>Annotations\<close>

lemma length_four: "length xs = 4 \<Longrightarrow> \<exists>a b c d. xs = [a, b, c, d]"
  by (auto simp: eval_nat_numeral length_Suc_conv)

lemma Annotation_init_four:
  "Annotation_init self p [a, b, c, d] =
     (case py_int a of
        Inl e \<Rightarrow> (Inl e, self\<lparr>Annotation_file_id := Some p\<rparr>)
      | Inr va \<Rightarrow>
          (case py_int b of
             Inl e \<Rightarrow> (Inl e, self\<lparr>Annotation_file_id := Some p, re_x := Some va\<rparr>)
           | Inr vb \<Rightarrow>
               (case py_int c of
                  Inl e \<Rightarrow> (Inl e, self\<lparr>Annotation_file_id := Some p, re_x := Some va,
                                         re_y := Some vb\<rparr>)
                | Inr vc \<Rightarrow>
                    (case py_int d of
                       Inl e \<Rightarrow> (Inl e, self\<lparr>Annotation_file_id := Some p, re_x := Some va,
                                              re_y := Some vb, le_x := Some vc\<rparr>)
                     | Inr vd \<Rightarrow> (Inr (), self\<lparr>Annotation_file_id := Some p, re_x := Some va,
                                               re_y := Some vb, le_x := Some vc,
                                               le_y := Some vd\<rparr>)))))"
  by (simp add: Annotation_init_def Let_def split: sum.splits)

lemma Annotation_init_arity: "length eyes \<noteq> 4 \<Longrightarrow>
    Annotation_init self p eyes = (Inl AssertionError, self\<lparr>Annotation_file_id := Some p\<rparr>)"
  by (simp add: Annotation_init_def)

lemma py_int_not_assertion: "py_int x \<noteq> Inl AssertionError"
  using py_int_error[of x AssertionError] by auto

lemma Annotation_init_four_not_assertion:
  "fst (Annotation_init self p [a, b, c, d]) \<noteq> Inl AssertionError"
  unfolding Annotation_init_four
  using py_int_not_assertion[of a] py_int_not_assertion[of b]
        py_int_not_assertion[of c] py_int_not_assertion[of d]
  by (auto split: sum.splits)

lemma Annotation_init_four_error:
  "fst (Annotation_init self p [a, b, c, d]) = Inl e \<Longrightarrow>
     e = ValueError \<or> e = TypeError \<or> e = OverflowError"
  unfolding Annotation_init_four
  using py_int_error[of a e] py_int_error[of b e] py_int_error[of c e] py_int_error[of d e]
  by (auto split: sum.splits)

lemma Annotation_new_fst:
  "Annotation_new p eyes = Inl e \<longleftrightarrow> fst (Annotation_init Annotation_blank p eyes) = Inl e"
  by (cases "Annotation_init Annotation_blank p eyes")
     (simp add: Annotation_new_def split: sum.splits)

lemma Annotation_init_file_id:
  "Annotation_file_id (snd (Annotation_init self p eyes)) = Some p"
proof (cases "length eyes = 4")
  case True
  then obtain a b c d where "eyes = [a, b, c, d]" using length_four by blast
  then show ?thesis by (simp add: Annotation_init_four split: sum.splits)
next
  case False
  then show ?thesis by (simp add: Annotation_init_arity)
qed

text \<open>
  Claim C4. Constructing an \<open>Annotation\<close> raises \<^verbatim>\<open>AssertionError\<close> exactly when
  \<open>eyes\<close> does not have four elements; with four elements that \<^verbatim>\<open>int\<close> accepts, the
  fields are \<open>re_x\<close>, \<open>re_y\<close>, \<open>le_x\<close>, \<open>le_y\<close> in the order of the elements.
\<close>

theorem Annotation_arity_and_order:
  "(fst (Annotation_init self p eyes) = Inl AssertionError \<longleftrightarrow> length eyes \<noteq> 4) \<and>
   (Annotation_new p eyes = Inl AssertionError \<longleftrightarrow> length eyes \<noteq> 4) \<and>
   (py_int a = Inr va \<and> py_int b = Inr vb \<and> py_int c = Inr vc \<and> py_int d = Inr vd \<longrightarrow>
      Annotation_new p [a, b, c, d] =
        Inr \<lparr>Annotation_id = None, Annotation_file_id = Some p,
             le_x = Some vc, le_y = Some vd, re_x = Some va, re_y = Some vb\<rparr>)"
proof -
  have iff: "fst (Annotation_init s p eyes) = Inl AssertionError \<longleftrightarrow> length eyes \<noteq> 4" for s
  proof (cases "length eyes = 4")
    case True
    then obtain a b c d where "eyes = [a, b, c, d]" using length_four by blast
    then show ?thesis using Annotation_init_four_not_assertion[of s p a b c d] by simp
  next
    case False
    then show ?thesis by (simp add: Annotation_init_arity)
  qed
  have new: "Annotation_new p eyes = Inl AssertionError \<longleftrightarrow> length eyes \<noteq> 4"
    using iff[of Annotation_blank] by (simp add: Annotation_new_fst)
  have ord: "Annotation_new p [a, b, c, d] =
        Inr \<lparr>Annotation_id = None, Annotation_file_id = Some p,
             le_x = Some vc, le_y = Some vd, re_x = Some va, re_y = Some vb\<rparr>"
    if "py_int a = Inr va" "py_int b = Inr vb" "py_int c = Inr vc" "py_int d = Inr vd"
    using that by (simp add: Annotation_new_def Annotation_init_four Annotation_blank_def)
  from iff[of self] new ord show ?thesis by blast
qed

theorem Annotation_arity_and_order_witness:
  "Annotation_new ''nd2S00001'' [PInt 1, PInt 2, PInt 3] = Inl AssertionError \<and>
   Annotation_new ''nd2S00001'' [PInt 10, PInt 20, PInt 30, PInt 40] =
     Inr \<lparr>Annotation_id = None, Annotation_file_id = Some ''nd2S00001'',
          le_x = Some 30, le_y = Some 40, re_x = Some 10, re_y = Some 20\<rparr>"
proof -
  have h: "py_int (PInt 10) = Inr 10 \<and> py_int (PInt 20) = Inr 20 \<and>
           py_int (PInt 30) = Inr 30 \<and> py_int (PInt 40) = Inr 40"
    by simp
  have l: "length [PInt 1, PInt 2, PInt 3] \<noteq> 4" by simp
  from Annotation_arity_and_order[of Annotation_blank "''nd2S00001''" "[PInt 1, PInt 2, PInt 3]"
      "PInt 10" 10 "PInt 20" 20 "PInt 30" 30 "PInt 40" 40] h l
  show ?thesis by blast
qed

text \<open>
  Claim C10 as stated fails for a finite float: 2.5 is neither an integer nor a string,
  and the construction succeeds and stores 2.
\<close>

theorem Annotation_float_counterexample:
  "length [PFloat 5 (- 1), PInt 20, PInt 30, PInt 40] = 4 \<and>
   \<not> integer_or_integer_string ([PFloat 5 (- 1), PInt 20, PInt 30, PInt 40] ! 0) \<and>
   Annotation_new ''nd2S00001'' [PFloat 5 (- 1), PInt 20, PInt 30, PInt 40] =
     Inr \<lparr>Annotation_id = None, Annotation_file_id = Some ''nd2S00001'',
          le_x = Some 30, le_y = Some 40, re_x = Some 2, re_y = Some 20\<rparr>"
  by (simp add: Annotation_new_def Annotation_init_four Annotation_blank_def float_trunc_def)

lemma py_int_raises:
  "\<not> integer_or_integer_string x \<Longrightarrow> \<not> is_PFloat x \<Longrightarrow> \<exists>e. py_int x = Inl e"
  by (cases x) (auto split: sum.splits)

lemma div_bounds:
  fixes n P :: int
  assumes "0 \<le> n" "0 < P"
  shows "0 \<le> n div P" "(n div P) * P \<le> n" "n < (n div P + 1) * P"
proof -
  show "0 \<le> n div P" using assms by (simp add: pos_imp_zdiv_nonneg_iff)
  have eq: "n = (n div P) * P + n mod P" by simp
  have m: "0 \<le> n mod P" "n mod P < P" using assms(2) by simp_all
  show "(n div P) * P \<le> n" using eq m(1) by linarith
  have e2: "(n div P + 1) * P = (n div P) * P + P" by (simp add: algebra_simps)
  show "n < (n div P + 1) * P" unfolding e2 using eq m(2) by linarith
qed

lemma float_trunc_truncates: "truncated_towards_zero m e (float_trunc m e)"
proof (cases "0 \<le> e")
  case True
  then show ?thesis by (simp add: truncated_towards_zero_def float_trunc_def)
next
  case False
  define P :: int where "P = 2 ^ nat (- e)"
  have P: "0 < P" by (simp add: P_def)
  have char: "truncated_towards_zero m e w \<longleftrightarrow>
      0 \<le> w * m \<and> \<bar>w\<bar> * P \<le> \<bar>m\<bar> \<and> \<bar>m\<bar> < (\<bar>w\<bar> + 1) * P" for w
    using False by (simp add: truncated_towards_zero_def P_def)
  show ?thesis
  proof (cases "0 \<le> m")
    case True
    define q where "q = m div P"
    have v: "float_trunc m e = q" using False True by (simp add: float_trunc_def P_def q_def)
    have q: "0 \<le> q" "q * P \<le> m" "m < (q + 1) * P"
      unfolding q_def by (rule div_bounds[OF True P])+
    have ab: "\<bar>q\<bar> = q" "\<bar>m\<bar> = m" using q(1) True by simp_all
    have "0 \<le> q * m" using q(1) True by (rule mult_nonneg_nonneg)
    then have "0 \<le> q * m \<and> \<bar>q\<bar> * P \<le> \<bar>m\<bar> \<and> \<bar>m\<bar> < (\<bar>q\<bar> + 1) * P"
      unfolding ab using q(2,3) by blast
    then show ?thesis unfolding v char .
  next
    case m: False
    then have n: "0 \<le> - m" by simp
    define q where "q = (- m) div P"
    have v: "float_trunc m e = - q" using False m by (simp add: float_trunc_def P_def q_def)
    have q: "0 \<le> q" "q * P \<le> - m" "- m < (q + 1) * P"
      unfolding q_def by (rule div_bounds[OF n P])+
    have ab: "\<bar>- q\<bar> = q" "\<bar>m\<bar> = - m" using q(1) m by simp_all
    have "0 \<le> q * (- m)" using q(1) n by (rule mult_nonneg_nonneg)
    then have "0 \<le> (- q) * m" by simp
    then have "0 \<le> (- q) * m \<and> \<bar>- q\<bar> * P \<le> \<bar>m\<bar> \<and> \<bar>m\<bar> < (\<bar>- q\<bar> + 1) * P"
      unfolding ab using q(2,3) by blast
    then show ?thesis unfolding v char .
  qed
qed

lemma py_int_accepts:
  "integer_or_integer_string x \<or> is_PFloat x \<Longrightarrow> \<exists>v. py_int x = Inr v"
  by (cases x) (auto split: sum.splits)

lemma py_int_float: "py_int x = Inr v \<Longrightarrow> x = PFloat m e \<Longrightarrow> truncated_towards_zero m e v"
  using float_trunc_truncates[of m e] by auto

lemma less_four: "(k::nat) < 4 \<Longrightarrow> k = 0 \<or> k = 1 \<or> k = 2 \<or> k = 3"
  by arith

lemma Annotation_new_four:
  assumes "py_int a = Inr va" "py_int b = Inr vb" "py_int c = Inr vc" "py_int d = Inr vd"
  shows "Annotation_new p [a, b, c, d] =
        Inr \<lparr>Annotation_id = None, Annotation_file_id = Some p,
             le_x = Some vc, le_y = Some vd, re_x = Some va, re_y = Some vb\<rparr>"
  using assms by (simp add: Annotation_new_def Annotation_init_four Annotation_blank_def)

lemma Annotation_floats_stored:
  assumes "length eyes = 4"
    and "\<forall>x\<in>set eyes. integer_or_integer_string x \<or> is_PFloat x"
  shows "\<exists>obj. Annotation_new p eyes = Inr obj \<and>
           (\<forall>k<4. \<forall>m e. eyes ! k = PFloat m e \<longrightarrow>
              (\<exists>v. [re_x obj, re_y obj, le_x obj, le_y obj] ! k = Some v \<and>
                   truncated_towards_zero m e v))"
proof -
  obtain a b c d where eyes: "eyes = [a, b, c, d]" using assms(1) length_four by blast
  obtain va where va: "py_int a = Inr va" using assms(2) eyes py_int_accepts[of a] by auto
  obtain vb where vb: "py_int b = Inr vb" using assms(2) eyes py_int_accepts[of b] by auto
  obtain vc where vc: "py_int c = Inr vc" using assms(2) eyes py_int_accepts[of c] by auto
  obtain vd where vd: "py_int d = Inr vd" using assms(2) eyes py_int_accepts[of d] by auto
  let ?obj = "\<lparr>Annotation_id = None, Annotation_file_id = Some p,
             le_x = Some vc, le_y = Some vd, re_x = Some va, re_y = Some vb\<rparr>"
  have new: "Annotation_new p eyes = Inr ?obj"
    unfolding eyes by (rule Annotation_new_four[OF va vb vc vd])
  have "\<exists>v. [re_x ?obj, re_y ?obj, le_x ?obj, le_y ?obj] ! k = Some v \<and>
                   truncated_towards_zero m e v"
    if k: "k < 4" and f: "eyes ! k = PFloat m e" for k m e
  proof -
    from less_four[OF k] consider "k = 0" | "k = 1" | "k = 2" | "k = 3" by blast
    then show ?thesis
    proof cases
      case 1 then show ?thesis using f eyes py_int_float[OF va, of m e] by simp
    next
      case 2 then show ?thesis using f eyes py_int_float[OF vb, of m e] by simp
    next
      case 3 then show ?thesis using f eyes py_int_float[OF vc, of m e] by simp
    next
      case 4 then show ?thesis using f eyes py_int_float[OF vd, of m e] by simp
    qed
  qed
  with new show ?thesis by blast
qed

lemma Annotation_raises:
  assumes "length eyes = 4"
    and "\<exists>x\<in>set eyes. \<not> integer_or_integer_string x \<and> \<not> is_PFloat x"
  shows "(\<exists>e. (e = ValueError \<or> e = TypeError \<or> e = OverflowError) \<and>
              fst (Annotation_init self p eyes) = Inl e \<and>
              Annotation_new p eyes = Inl e) \<and>
         (\<forall>eyes'. Annotation_file_id (snd (Annotation_init self p eyes')) = Some p)"
proof -
  obtain a b c d where eyes: "eyes = [a, b, c, d]" using assms(1) length_four by blast
  from assms(2) obtain x where x: "x \<in> set eyes" "\<exists>e. py_int x = Inl e"
    using py_int_raises by blast
  have ex: "\<exists>e. fst (Annotation_init s p [a, b, c, d]) = Inl e" for s
    using x unfolding eyes Annotation_init_four
    by (auto split: sum.splits)
  obtain e where e: "fst (Annotation_init self p eyes) = Inl e" using ex eyes by blast
  obtain e' where e': "fst (Annotation_init Annotation_blank p eyes) = Inl e'" using ex eyes by blast
  have same: "fst (Annotation_init s p [a, b, c, d]) = fst (Annotation_init s' p [a, b, c, d])" for s s'
    unfolding Annotation_init_four by (simp split: sum.splits)
  have "e' = e" using e e' same[of self Annotation_blank] eyes by simp
  moreover have "e = ValueError \<or> e = TypeError \<or> e = OverflowError"
    using e Annotation_init_four_error[of self p a b c d e] eyes by simp
  ultimately show ?thesis
    using e e' Annotation_init_file_id by (auto simp: Annotation_new_fst)
qed

text \<open>
  Claim C10, as the code has it. Let \<open>eyes\<close> have four elements. When one of them is
  neither an integer, nor a string that \<^verbatim>\<open>int\<close> accepts, nor a finite float, the
  construction raises the \<^verbatim>\<open>ValueError\<close>, \<^verbatim>\<open>TypeError\<close> or \<^verbatim>\<open>OverflowError\<close> of
  \<^verbatim>\<open>int\<close>. When every element is one of these three, the construction succeeds and the
  field of each finite float holds the float truncated towards zero. Whatever \<open>eyes\<close>
  is, \<open>file_id\<close> holds the first argument when \<^verbatim>\<open>__init__\<close> ends or raises.
\<close>

theorem Annotation_coercion_outcome:
  assumes "length eyes = 4"
  shows "((\<exists>x\<in>set eyes. \<not> integer_or_integer_string x \<and> \<not> is_PFloat x) \<longrightarrow>
            (\<exists>e. (e = ValueError \<or> e = TypeError \<or> e = OverflowError) \<and>
                 fst (Annotation_init self p eyes) = Inl e \<and>
                 Annotation_new p eyes = Inl e)) \<and>
         ((\<forall>x\<in>set eyes. integer_or_integer_string x \<or> is_PFloat x) \<longrightarrow>
            (\<exists>obj. Annotation_new p eyes = Inr obj \<and>
               (\<forall>k<4. \<forall>m e. eyes ! k = PFloat m e \<longrightarrow>
                  (\<exists>v. [re_x obj, re_y obj, le_x obj, le_y obj] ! k = Some v \<and>
                       truncated_towards_zero m e v)))) \<and>
         (\<forall>eyes'. Annotation_file_id (snd (Annotation_init self p eyes')) = Some p)"
proof -
  have fails: "\<exists>e. (e = ValueError \<or> e = TypeError \<or> e = OverflowError) \<and>
                 fst (Annotation_init self p eyes) = Inl e \<and>
                 Annotation_new p eyes = Inl e"
    if "\<exists>x\<in>set eyes. \<not> integer_or_integer_string x \<and> \<not> is_PFloat x"
    using Annotation_raises[OF assms that, of self p] by blast
  have stores: "\<exists>obj. Annotation_new p eyes = Inr obj \<and>
               (\<forall>k<4. \<forall>m e. eyes ! k = PFloat m e \<longrightarrow>
                  (\<exists>v. [re_x obj, re_y obj, le_x obj, le_y obj] ! k = Some v \<and>
                       truncated_towards_zero m e v))"
    if "\<forall>x\<in>set eyes. integer_or_integer_string x \<or> is_PFloat x"
    by (rule Annotation_floats_stored[OF assms that])
  have fid: "\<forall>eyes'. Annotation_file_id (snd (Annotation_init self p eyes')) = Some p"
    by (simp add: Annotation_init_file_id)
  from fails stores fid show ?thesis by blast
qed

theorem Annotation_coercion_outcome_witness:
  "Annotation_new ''nd2S00001'' [PInt 10, PNone, PInt 30, PInt 40] = Inl TypeError \<and>
   Annotation_file_id (snd (Annotation_init Annotation_blank ''nd2S00001''
      [PInt 10, PNone, PInt 30, PInt 40])) = Some ''nd2S00001'' \<and>
   (\<exists>obj v. Annotation_new ''nd2S00001'' [PFloat (- 5) (- 1), PInt 20, PInt 30, PFloat 3 2] =
        Inr obj \<and> re_x obj = Some v \<and> truncated_towards_zero (- 5) (- 1) v)"
proof -
  let ?bad = "[PInt 10, PNone, PInt 30, PInt 40]"
  let ?good = "[PFloat (- 5) (- 1), PInt 20, PInt 30, PFloat 3 2]"
  have l: "length ?bad = 4" "length ?good = 4" by simp_all
  have b: "\<exists>x\<in>set ?bad. \<not> integer_or_integer_string x \<and> \<not> is_PFloat x" by simp
  have g: "\<forall>x\<in>set ?good. integer_or_integer_string x \<or> is_PFloat x" by simp
  have v: "fst (Annotation_init Annotation_blank ''nd2S00001'' ?bad) = Inl TypeError"
    by (simp add: Annotation_init_four)
  from Annotation_coercion_outcome[OF l(1), of Annotation_blank "''nd2S00001''"] b v
  have bad: "Annotation_new ''nd2S00001'' ?bad = Inl TypeError"
    and fid: "Annotation_file_id (snd (Annotation_init Annotation_blank ''nd2S00001'' ?bad)) =
      Some ''nd2S00001''"
    by auto
  from Annotation_coercion_outcome[OF l(2), of Annotation_blank "''nd2S00001''"] g
  obtain obj where obj: "Annotation_new ''nd2S00001'' ?good = Inr obj"
    and st: "\<forall>k<4. \<forall>m e. ?good ! k = PFloat m e \<longrightarrow>
          (\<exists>v. [re_x obj, re_y obj, le_x obj, le_y obj] ! k = Some v \<and>
               truncated_towards_zero m e v)"
    by blast
  have "(0::nat) < 4" by simp
  with st have "\<forall>m e. ?good ! 0 = PFloat m e \<longrightarrow>
          (\<exists>v. [re_x obj, re_y obj, le_x obj, le_y obj] ! 0 = Some v \<and>
               truncated_towards_zero m e v)"
    by blast
  then obtain v where "re_x obj = Some v" "truncated_towards_zero (- 5) (- 1) v"
    by auto
  with obj bad fid show ?thesis by blast
qed

section \<open>Saving\<close>

lemma load_global_bob: "load_global ''bob'' = Inl (NameError ''bob'')"
  by (simp add: load_global_def module_globals_def)

text \<open>
  Claim C7. \<open>save\<close> composes the path with \<open>make_path\<close> and then reads the name
  \<^verbatim>\<open>bob\<close>, which the module never binds: for every file with a path, whatever the
  collaborators are, the call raises \<^verbatim>\<open>NameError\<close> and the store is left as it was. No
  directory is created and nothing is written.
\<close>

theorem File_save_raises_NameError:
  assumes "File_path f = Some p"
  shows "File_save makedirs_safe io_save f data directory extension fs =
           (Inl (NameError ''bob''), fs) \<and>
         File_save_default makedirs_safe io_save f data directory fs =
           (Inl (NameError ''bob''), fs)"
  using assms
  by (simp add: File_save_default_def File_save_def File_make_path_def load_global_bob)

theorem File_save_raises_NameError_witness:
  "File_save_default (\<lambda>d fs. Inr (d # fs)) (\<lambda>x q fs. Inr (q # fs))
     \<lparr>File_id = None, File_client_id = Some 1, File_path = Some ''a/b'',
      File_presentation = Some ''nd2S00001'', File_signature = Some ''nd1S0001''\<rparr>
     (0::nat) (Some ''/tmp'') [] =
   (Inl (NameError ''bob''), [])"
proof -
  have h: "File_path \<lparr>File_id = None, File_client_id = Some 1, File_path = Some ''a/b'',
      File_presentation = Some ''nd2S00001'', File_signature = Some ''nd1S0001''\<rparr> = Some ''a/b''"
    by simp
  show ?thesis by (rule conjunct2[OF File_save_raises_NameError[OF h]])
qed

end
